theory Spec2Isabelle
  imports Complex_Main "HOL-Library.Char_ord" "HOL-Library.List_Lexorder"
begin

section \<open>Decoded values and Python coercions\<close>

text \<open>
  The tracker reads a client log, decodes the JSON objects embedded in each line and
  reconciles them into an SQLite store. Decoded JSON is a Python value: \<open>None\<close>, a
  \<open>bool\<close>, an \<open>int\<close>, a \<open>float\<close>, a \<open>str\<close>, a \<open>list\<close> or a \<open>dict\<close> with
  string keys. A \<open>dict\<close> is kept as its items in insertion order. Strings are byte
  strings here, so the case and digit functions below are the ASCII part of Python's.
  Integers are unbounded, as Python's are; the quantities of the store are taken to stay
  inside SQLite's 64-bit INTEGER.
\<close>

datatype pyfloat = Finite rat | Infinite bool | NaN

datatype json =
    JNull
  | JBool bool
  | JInt int
  | JFloat pyfloat
  | JStr string
  | JArr "json list"
  | JObj "(string \<times> json) list"

datatype error = ValueError | TypeError | OverflowError

text \<open>A \<open>Dict[int, int]\<close>: its items in insertion order.\<close>

type_synonym pydict = "(int \<times> int) list"

text \<open>\<open>d.get(k)\<close> on the items of a dict; \<open>k in d\<close> is that it is not \<open>None\<close>.\<close>

definition dict_get :: "('k \<times> 'v) list \<Rightarrow> 'k \<Rightarrow> 'v option" where
  "dict_get d k = map_of d k"

text \<open>\<open>d[k] = v\<close>: an existing key keeps its position, a new key is appended.\<close>

fun dict_set :: "('k \<times> 'v) list \<Rightarrow> 'k \<Rightarrow> 'v \<Rightarrow> ('k \<times> 'v) list" where
  "dict_set [] k v = [(k, v)]"
| "dict_set ((k', v') # d) k v = (if k' = k then (k, v) # d else (k', v') # dict_set d k v)"

text \<open>\<open>d[k] = d.get(k, 0) + c\<close> on a \<open>Dict[int, int]\<close>, for the pair \<open>(k, c)\<close>.\<close>

definition add_change :: "pydict \<Rightarrow> int \<times> int \<Rightarrow> pydict" where
  "add_change deltas ac =
     dict_set deltas (fst ac) ((case dict_get deltas (fst ac) of None \<Rightarrow> 0 | Some v \<Rightarrow> v) + snd ac)"

text \<open>\<open>entry.get(key)\<close> on a decoded object: an absent key and a JSON null both give \<open>None\<close>.\<close>

definition json_get :: "(string \<times> json) list \<Rightarrow> string \<Rightarrow> json" where
  "json_get d k = (case dict_get d k of None \<Rightarrow> JNull | Some v \<Rightarrow> v)"

text \<open>Python truthiness of a decoded value.\<close>

fun truthy :: "json \<Rightarrow> bool" where
  "truthy JNull = False"
| "truthy (JBool b) = b"
| "truthy (JInt i) = (i \<noteq> 0)"
| "truthy (JFloat (Finite r)) = (r \<noteq> 0)"
| "truthy (JFloat _) = True"
| "truthy (JStr s) = (s \<noteq> [])"
| "truthy (JArr xs) = (xs \<noteq> [])"
| "truthy (JObj kvs) = (kvs \<noteq> [])"

text \<open>\<open>str.lower()\<close>, \<open>str.upper()\<close> and \<open>str.capitalize()\<close> on ASCII.\<close>

definition lower_char :: "char \<Rightarrow> char" where
  "lower_char c = (if CHR ''A'' \<le> c \<and> c \<le> CHR ''Z'' then char_of (of_char c + (32::nat)) else c)"

definition upper_char :: "char \<Rightarrow> char" where
  "upper_char c = (if CHR ''a'' \<le> c \<and> c \<le> CHR ''z'' then char_of (of_char c - (32::nat)) else c)"

definition lower :: "string \<Rightarrow> string" where
  "lower s = map lower_char s"

definition upper :: "string \<Rightarrow> string" where
  "upper s = map upper_char s"

definition capitalize :: "string \<Rightarrow> string" where
  "capitalize s = (case s of [] \<Rightarrow> [] | c # cs \<Rightarrow> upper_char c # map lower_char cs)"

text \<open>
  \<open>int(x)\<close>. On a string: surrounding whitespace is stripped, one sign is allowed, and
  the rest is decimal digits, with single underscores allowed between digits; anything
  else raises \<open>ValueError\<close>. On a float: truncation towards zero, \<open>OverflowError\<close> on an
  infinity and \<open>ValueError\<close> on a NaN. On \<open>None\<close>, a list or a dict: \<open>TypeError\<close>.
\<close>

definition is_space :: "char \<Rightarrow> bool" where
  "is_space c = (c \<in> {CHR '' '', CHR 0x09, CHR 0x0A, CHR 0x0B, CHR 0x0C, CHR 0x0D,
                       CHR 0x1C, CHR 0x1D, CHR 0x1E, CHR 0x1F})"

definition is_digit :: "char \<Rightarrow> bool" where
  "is_digit c = (CHR ''0'' \<le> c \<and> c \<le> CHR ''9'')"

definition digit_val :: "char \<Rightarrow> int" where
  "digit_val c = int (of_char c) - 48"

definition strip :: "string \<Rightarrow> string" where
  "strip s = rev (dropWhile is_space (rev (dropWhile is_space s)))"

text \<open>
  \<open>digits acc prev s\<close> reads the digits of \<open>s\<close> into \<open>acc\<close>; \<open>prev\<close> says that the
  character before was a digit, which is where an underscore or the end may come.
\<close>

fun digits :: "int \<Rightarrow> bool \<Rightarrow> string \<Rightarrow> int option" where
  "digits acc prev [] = (if prev then Some acc else None)"
| "digits acc prev (c # cs) =
     (if is_digit c then digits (10 * acc + digit_val c) True cs
      else if c = CHR ''_'' \<and> prev then digits acc False cs
      else None)"

definition int_of_str :: "string \<Rightarrow> error + int" where
  "int_of_str s =
     (let t = strip s;
          (neg, body) = (case t of
                           c # cs \<Rightarrow> if c = CHR ''-'' then (True, cs)
                                     else if c = CHR ''+'' then (False, cs)
                                     else (False, t)
                         | [] \<Rightarrow> (False, t))
      in case digits 0 False body of
           None \<Rightarrow> Inl ValueError
         | Some n \<Rightarrow> Inr (if neg then - n else n))"

definition trunc :: "rat \<Rightarrow> int" where
  "trunc r = (if 0 \<le> r then \<lfloor>r\<rfloor> else \<lceil>r\<rceil>)"

fun py_int :: "json \<Rightarrow> error + int" where
  "py_int JNull = Inl TypeError"
| "py_int (JBool b) = Inr (if b then 1 else 0)"
| "py_int (JInt i) = Inr i"
| "py_int (JFloat (Finite r)) = Inr (trunc r)"
| "py_int (JFloat (Infinite _)) = Inl OverflowError"
| "py_int (JFloat NaN) = Inl ValueError"
| "py_int (JStr s) = int_of_str s"
| "py_int (JArr _) = Inl TypeError"
| "py_int (JObj _) = Inl TypeError"

section \<open>The extractor (parser.py)\<close>

definition SNAPSHOT_KEYS :: "string list" where
  "SNAPSHOT_KEYS = [''cards'', ''ownedcards'']"

definition DELTA_EVENT_KEYS :: "string list" where
  "DELTA_EVENT_KEYS =
     [''inventorydelta'', ''inventoryupdated'', ''boosteropened'', ''eventreward'',
      ''rewardgranted'', ''dailywin'', ''craftcard'', ''upgradecard'', ''vaultprogress'',
      ''vaultreward'', ''wildcardgranted'']"

definition ID_KEYS :: "string list" where
  "ID_KEYS = [''grpid'', ''grp_id'', ''titleid'', ''title_id'', ''arenaid'', ''cardid'', ''mtgaid'']"

definition SNAPSHOT_COUNT_KEYS :: "string list" where
  "SNAPSHOT_COUNT_KEYS = [''quantity'', ''qty'', ''count'']"

definition DELTA_COUNT_KEYS :: "string list" where
  "DELTA_COUNT_KEYS = [''delta'', ''quantitydelta'', ''change'', ''amount'']"

datatype event =
    SnapshotEvent pydict string json
  | DeltaEvent pydict string json

text \<open>
  \<open>_extract_json_strings\<close>: one pass over the line with the brace depth and the index
  where the current top-level span opened; a span is cut out when the depth returns to 0.
\<close>

fun scan_json :: "string \<Rightarrow> nat \<Rightarrow> nat \<Rightarrow> nat option \<Rightarrow> string \<Rightarrow> string list" where
  "scan_json text idx depth start [] = []"
| "scan_json text idx depth start (char # rest) =
     (if char = CHR ''{'' then
        scan_json text (Suc idx) (Suc depth) (if depth = 0 then Some idx else start) rest
      else if char = CHR ''}'' then
        (if depth = 0 then scan_json text (Suc idx) depth start rest
         else if depth - 1 = 0 then
           (case start of
              Some st \<Rightarrow> take (Suc idx - st) (drop st text) # scan_json text (Suc idx) 0 None rest
            | None \<Rightarrow> scan_json text (Suc idx) 0 None rest)
         else scan_json text (Suc idx) (depth - 1) start rest)
      else scan_json text (Suc idx) depth start rest)"

definition extract_json_strings :: "string \<Rightarrow> string list" where
  "extract_json_strings text = scan_json text 0 0 None text"

text \<open>\<open>isinstance(x, dict)\<close>, \<open>entry.items()\<close> and \<open>_ensure_list\<close>.\<close>

fun is_dict :: "json \<Rightarrow> bool" where
  "is_dict (JObj _) = True"
| "is_dict _ = False"

fun items :: "json \<Rightarrow> (string \<times> json) list" where
  "items (JObj kvs) = kvs"
| "items _ = []"

fun ensure_list :: "json \<Rightarrow> json list" where
  "ensure_list (JArr xs) = xs"
| "ensure_list v = [v]"

text \<open>\<open>_walk_dict\<close>: every key of every nested dict, lower-cased, with its value.\<close>

fun walk_dict :: "json \<Rightarrow> (string \<times> json) list" where
  "walk_dict (JObj kvs) = concat (map (\<lambda>(key, v). (lower key, v) # walk_dict v) kvs)"
| "walk_dict (JArr xs) = concat (map walk_dict xs)"
| "walk_dict _ = []"

text \<open>
  \<open>_collect_card_like_entries\<close>: the entries under an added, removed or generic key
  with their multiplier, found by descending through every other key; what is not a dict
  is dropped at the end of each call.
\<close>

fun collect_card_like_entries :: "json \<Rightarrow> (json \<times> int) list" where
  "collect_card_like_entries (JObj kvs) =
     filter (\<lambda>(entry, multiplier). is_dict entry)
       (concat (map (\<lambda>(key, inner).
          if lower key \<in> set [''adds'', ''addedcards'', ''grantedcards'']
            then map (\<lambda>item. (item, 1)) (ensure_list inner)
          else if lower key \<in> set [''removes'', ''removedcards'', ''spentcards'']
            then map (\<lambda>item. (item, - 1)) (ensure_list inner)
          else if lower key \<in> set [''changes'', ''cards'', ''deltas'']
            then map (\<lambda>item. (item, 1)) (ensure_list inner)
          else collect_card_like_entries inner) kvs))"
| "collect_card_like_entries (JArr xs) =
     filter (\<lambda>(entry, multiplier). is_dict entry) (concat (map collect_card_like_entries xs))"
| "collect_card_like_entries _ = []"

text \<open>\<open>_find_card_entries\<close>: the dicts listed under one of the keys, at any depth.\<close>

fun find_card_entries :: "string list \<Rightarrow> json \<Rightarrow> json list" where
  "find_card_entries keys (JObj kvs) =
     concat (map (\<lambda>(key, v).
        if lower key \<in> set (map lower keys) then filter is_dict (ensure_list v)
        else find_card_entries keys v) kvs)"
| "find_card_entries keys (JArr xs) = concat (map (find_card_entries keys) xs)"
| "find_card_entries keys _ = []"

text \<open>
  \<open>_extract_arena_id\<close>: the first id key present as spelled, else the first key of the
  entry that is an id key once lower-cased, else \<open>"id"\<close>. Only the last \<open>int\<close> sits in
  a \<open>try\<close>; the first two raise what \<open>int\<close> raises.
\<close>

fun first_present :: "string list \<Rightarrow> (string \<times> json) list \<Rightarrow> json option" where
  "first_present [] entry = None"
| "first_present (key # keys) entry =
     (case dict_get entry key of Some v \<Rightarrow> Some v | None \<Rightarrow> first_present keys entry)"

fun first_lowered :: "(string \<times> json) list \<Rightarrow> json option" where
  "first_lowered [] = None"
| "first_lowered ((key, v) # rest) =
     (if lower key \<in> set ID_KEYS then Some v else first_lowered rest)"

definition extract_arena_id :: "(string \<times> json) list \<Rightarrow> error + int option" where
  "extract_arena_id entry =
     (case first_present ID_KEYS entry of
        Some v \<Rightarrow> (case py_int v of Inl e \<Rightarrow> Inl e | Inr i \<Rightarrow> Inr (Some i))
      | None \<Rightarrow>
          (case first_lowered entry of
             Some v \<Rightarrow> (case py_int v of Inl e \<Rightarrow> Inl e | Inr i \<Rightarrow> Inr (Some i))
           | None \<Rightarrow>
               (case dict_get entry ''id'' of
                  None \<Rightarrow> Inr None
                | Some v \<Rightarrow>
                    (case py_int v of
                       Inr i \<Rightarrow> Inr (Some i)
                     | Inl TypeError \<Rightarrow> Inr None
                     | Inl ValueError \<Rightarrow> Inr None
                     | Inl OverflowError \<Rightarrow> Inl OverflowError))))"

text \<open>
  \<open>_extract_first_int\<close>: for each key, its value as spelled, capitalised or in upper
  case; a value that \<open>int\<close> rejects with \<open>TypeError\<close> or \<open>ValueError\<close> is passed over.
\<close>

fun extract_first_int :: "(string \<times> json) list \<Rightarrow> string list \<Rightarrow> error + int option" where
  "extract_first_int entry [] = Inr None"
| "extract_first_int entry (key # keys) =
     (let v0 = json_get entry key;
          v1 = (if v0 = JNull then json_get entry (capitalize key) else v0);
          v2 = (if v1 = JNull then json_get entry (upper key) else v1)
      in if v2 = JNull then extract_first_int entry keys
         else (case py_int v2 of
                 Inr i \<Rightarrow> Inr (Some i)
               | Inl TypeError \<Rightarrow> extract_first_int entry keys
               | Inl ValueError \<Rightarrow> extract_first_int entry keys
               | Inl OverflowError \<Rightarrow> Inl OverflowError))"

text \<open>
  \<open>_extract_snapshot_cards\<close>: each entry needs an id and a quantity; the quantity is
  floored at zero.
\<close>

fun snapshot_entries :: "pydict \<Rightarrow> json list \<Rightarrow> error + pydict" where
  "snapshot_entries cs [] = Inr cs"
| "snapshot_entries cs (entry # entries) =
     (case extract_arena_id (items entry) of
        Inl e \<Rightarrow> Inl e
      | Inr None \<Rightarrow> snapshot_entries cs entries
      | Inr (Some arena_id) \<Rightarrow>
          (case extract_first_int (items entry) SNAPSHOT_COUNT_KEYS of
             Inl e \<Rightarrow> Inl e
           | Inr None \<Rightarrow> snapshot_entries cs entries
           | Inr (Some quantity) \<Rightarrow>
               snapshot_entries (dict_set cs arena_id (max quantity 0)) entries))"

definition extract_snapshot_cards :: "json \<Rightarrow> error + pydict" where
  "extract_snapshot_cards obj = snapshot_entries [] (find_card_entries SNAPSHOT_KEYS obj)"

text \<open>
  \<open>_normalise_deltas\<close>. The body of its loop up to \<open>change\<close> is \<open>entry_change\<close>: the
  id of the entry and its magnitude (an explicit delta field, else an absolute quantity
  field) times the multiplier, or nothing when either is missing. The loop passes over an
  entry whose change is 0 and adds every other change to the dict.
\<close>

definition entry_change :: "json \<Rightarrow> int \<Rightarrow> error + (int \<times> int) option" where
  "entry_change entry multiplier =
     (case extract_arena_id (items entry) of
        Inl e \<Rightarrow> Inl e
      | Inr None \<Rightarrow> Inr None
      | Inr (Some arena_id) \<Rightarrow>
          (case extract_first_int (items entry) DELTA_COUNT_KEYS of
             Inl e \<Rightarrow> Inl e
           | Inr (Some d) \<Rightarrow> Inr (Some (arena_id, d * multiplier))
           | Inr None \<Rightarrow>
               (case extract_first_int (items entry) SNAPSHOT_COUNT_KEYS of
                  Inl e \<Rightarrow> Inl e
                | Inr None \<Rightarrow> Inr None
                | Inr (Some quantity) \<Rightarrow> Inr (Some (arena_id, quantity * multiplier)))))"

fun normalise_entries :: "pydict \<Rightarrow> (json \<times> int) list \<Rightarrow> error + pydict" where
  "normalise_entries deltas [] = Inr deltas"
| "normalise_entries deltas ((entry, multiplier) # entries) =
     (case entry_change entry multiplier of
        Inl e \<Rightarrow> Inl e
      | Inr None \<Rightarrow> normalise_entries deltas entries
      | Inr (Some (arena_id, change)) \<Rightarrow>
          if change = 0 then normalise_entries deltas entries
          else normalise_entries
                 (dict_set deltas arena_id
                    ((case dict_get deltas arena_id of None \<Rightarrow> 0 | Some v \<Rightarrow> v) + change))
                 entries)"

definition normalise_deltas :: "json \<Rightarrow> error + pydict" where
  "normalise_deltas v = normalise_entries [] (collect_card_like_entries v)"

text \<open>
  \<open>_extract_delta_events\<close>: one pair per walked key that is a delta key and whose value
  normalises to a non-empty dict.
\<close>

fun delta_events_of :: "(string \<times> json) list \<Rightarrow> error + (string \<times> pydict) list" where
  "delta_events_of [] = Inr []"
| "delta_events_of ((key, v) # rest) =
     (if key \<in> set DELTA_EVENT_KEYS then
        (case normalise_deltas v of
           Inl e \<Rightarrow> Inl e
         | Inr deltas \<Rightarrow>
             (case delta_events_of rest of
                Inl e \<Rightarrow> Inl e
              | Inr later \<Rightarrow> Inr (if deltas \<noteq> [] then (key, deltas) # later else later)))
      else delta_events_of rest)"

definition extract_delta_events :: "json \<Rightarrow> error + (string \<times> pydict) list" where
  "extract_delta_events obj = delta_events_of (walk_dict obj)"

text \<open>
  \<open>_parse_json_object\<close>: nothing for a value that is not a dict; the delta events when
  there are any; otherwise one snapshot event when the snapshot cards are not empty.
\<close>

definition parse_json_object :: "json \<Rightarrow> error + event list" where
  "parse_json_object obj =
     (if \<not> is_dict obj then Inr []
      else (case extract_delta_events obj of
              Inl e \<Rightarrow> Inl e
            | Inr found \<Rightarrow>
                (let delta_events =
                       map (\<lambda>(source, deltas). DeltaEvent deltas source obj)
                         (filter (\<lambda>(source, deltas). deltas \<noteq> []) found)
                 in if delta_events \<noteq> [] then Inr delta_events
                    else (case extract_snapshot_cards obj of
                            Inl e \<Rightarrow> Inl e
                          | Inr snapshot_cards \<Rightarrow>
                              Inr (if snapshot_cards \<noteq> []
                                   then [SnapshotEvent snapshot_cards ''snapshot'' obj]
                                   else [])))))"

text \<open>
  \<open>parse_line\<close>. The JSON decoder \<open>jsonutil.loads\<close> is the parameter \<open>loads\<close>, with
  \<open>None\<close> for its \<open>ValueError\<close>, the one exception the loop catches. The call of
  \<open>_parse_json_object\<close> is outside the \<open>try\<close>.
\<close>

fun parse_snippets :: "(string \<Rightarrow> json option) \<Rightarrow> string list \<Rightarrow> error + event list" where
  "parse_snippets loads [] = Inr []"
| "parse_snippets loads (snippet # rest) =
     (case loads snippet of
        None \<Rightarrow> parse_snippets loads rest
      | Some data \<Rightarrow>
          (case parse_json_object data of
             Inl e \<Rightarrow> Inl e
           | Inr evs \<Rightarrow>
               (case parse_snippets loads rest of
                  Inl e \<Rightarrow> Inl e
                | Inr later \<Rightarrow> Inr (evs @ later))))"

definition parse_line :: "(string \<Rightarrow> json option) \<Rightarrow> string \<Rightarrow> error + event list" where
  "parse_line loads line = parse_snippets loads (extract_json_strings line)"

section \<open>The store (store.py)\<close>

text \<open>
  The SQLite tables: \<open>cards\<close> and \<open>metadata\<close> (primary key \<open>arena_id\<close>),
  \<open>state\<close> (primary key \<open>key\<close>) and \<open>pending_deltas\<close> (no key, read back in row
  order). A table with a
  primary key is a map; the pending log is a list. Every operation runs under the store's
  lock in one transaction, so it is one state transformer.
\<close>

record PendingDelta =
  pd_arena_id :: int
  pd_delta :: int
  pd_ts :: json

record Store =
  cards :: "int \<rightharpoonup> int"
  metadata :: "int \<rightharpoonup> (string \<times> string \<times> string \<times> string)"
  state :: "string \<rightharpoonup> string"
  pending_deltas :: "PendingDelta list"

text \<open>\<open>DELETE FROM cards\<close>, then one \<open>INSERT\<close> per item of the dict.\<close>

definition replace_cards :: "pydict \<Rightarrow> Store \<Rightarrow> Store" where
  "replace_cards cs s = s\<lparr>cards := foldl (\<lambda>tbl (aid, qty). tbl(aid \<mapsto> qty)) Map.empty cs\<rparr>"

text \<open>
  \<open>INSERT INTO cards VALUES(?, ?) ON CONFLICT(arena_id) DO UPDATE SET quantity =
  MAX(quantity + excluded.quantity, 0)\<close>: a row that is absent is inserted with the
  value as given; a row that is present is updated and floored at zero.
\<close>

definition upsert_card :: "(int \<rightharpoonup> int) \<Rightarrow> int \<times> int \<Rightarrow> (int \<rightharpoonup> int)" where
  "upsert_card tbl row =
     (case row of (aid, d) \<Rightarrow>
        (case tbl aid of
           None \<Rightarrow> tbl(aid \<mapsto> d)
         | Some quantity \<Rightarrow> tbl(aid \<mapsto> max (quantity + d) 0)))"

definition apply_deltas :: "pydict \<Rightarrow> Store \<Rightarrow> Store" where
  "apply_deltas deltas s =
     (if deltas = [] then s else s\<lparr>cards := foldl upsert_card (cards s) deltas\<rparr>)"

definition get_all_cards :: "Store \<Rightarrow> (int \<rightharpoonup> int)" where
  "get_all_cards s = cards s"

text \<open>One upsert per row: name, set code, rarity and the time of the merge.\<close>

definition upsert_metadata ::
  "(int \<times> string \<times> string \<times> string \<times> string) list \<Rightarrow> Store \<Rightarrow> Store" where
  "upsert_metadata rows s =
     s\<lparr>metadata := foldl (\<lambda>tbl (aid, row). tbl(aid \<mapsto> row)) (metadata s) rows\<rparr>"

definition get_state :: "Store \<Rightarrow> string \<Rightarrow> string option \<Rightarrow> string option" where
  "get_state s key dflt = (case state s key of Some v \<Rightarrow> Some v | None \<Rightarrow> dflt)"

definition set_state :: "string \<Rightarrow> string \<Rightarrow> Store \<Rightarrow> Store" where
  "set_state key v s = s\<lparr>state := (state s)(key \<mapsto> v)\<rparr>"

definition add_pending_delta :: "int \<Rightarrow> int \<Rightarrow> json \<Rightarrow> Store \<Rightarrow> Store" where
  "add_pending_delta aid d ts s =
     s\<lparr>pending_deltas := pending_deltas s @ [\<lparr>pd_arena_id = aid, pd_delta = d, pd_ts = ts\<rparr>]\<rparr>"

definition iter_pending_deltas :: "Store \<Rightarrow> PendingDelta list" where
  "iter_pending_deltas s = pending_deltas s"

definition clear_pending_deltas :: "Store \<Rightarrow> Store" where
  "clear_pending_deltas s = s\<lparr>pending_deltas := []\<rparr>"

text \<open>\<open>self.get_state("baseline", "missing") or "missing"\<close>.\<close>

definition baseline_state :: "Store \<Rightarrow> string" where
  "baseline_state s =
     (case get_state s ''baseline'' (Some ''missing'') of
        None \<Rightarrow> ''missing''
      | Some v \<Rightarrow> if v = [] then ''missing'' else v)"

definition mark_baseline_complete :: "Store \<Rightarrow> Store" where
  "mark_baseline_complete s = set_state ''baseline'' ''complete'' s"

definition mark_baseline_missing :: "Store \<Rightarrow> Store" where
  "mark_baseline_missing s = set_state ''baseline'' ''missing'' s"

section \<open>The reconciler (tracker.py)\<close>

text \<open>
  The tracker owns the store and an exporter. An export writes files from the store and
  changes nothing in it, so the tracker's state is the store and the number of exports
  made. The clock \<open>_utcnow().isoformat()\<close> is the parameter \<open>now\<close>.
\<close>

record Tracker =
  store :: Store
  exports :: nat

definition export :: "Tracker \<Rightarrow> Tracker" where
  "export tr = tr\<lparr>exports := Suc (exports tr)\<rparr>"

text \<open>
  \<open>_apply_pending_deltas\<close>: nothing to do on an empty log; otherwise the log is netted
  per arena id into a dict, the dict is applied in one \<open>apply_deltas\<close>, and the log is
  cleared.
\<close>

definition aggregate_step :: "pydict \<Rightarrow> PendingDelta \<Rightarrow> pydict" where
  "aggregate_step aggregate item =
     dict_set aggregate (pd_arena_id item)
       ((case dict_get aggregate (pd_arena_id item) of None \<Rightarrow> 0 | Some v \<Rightarrow> v) + pd_delta item)"

definition apply_pending_deltas :: "Store \<Rightarrow> Store" where
  "apply_pending_deltas s =
     (let pending = iter_pending_deltas s in
      if pending = [] then s
      else clear_pending_deltas (apply_deltas (foldl aggregate_step [] pending) s))"

definition handle_snapshot :: "string \<Rightarrow> pydict \<Rightarrow> Tracker \<Rightarrow> Tracker" where
  "handle_snapshot now ev_cards tr =
     export (tr\<lparr>store :=
       apply_pending_deltas
         (set_state ''last_snapshot'' now
           (mark_baseline_complete (replace_cards ev_cards (store tr))))\<rparr>)"

text \<open>
  \<open>_handle_delta\<close>: the timestamp is the raw object's \<open>"timestamp"\<close> when that is
  truthy, the clock otherwise. Without a complete baseline every item of the event is
  appended to the pending log and nothing else happens; with one, the deltas are applied
  and an export follows.
\<close>

definition event_ts :: "string \<Rightarrow> json \<Rightarrow> json" where
  "event_ts now ev_raw =
     (let timestamp = (case ev_raw of JObj kvs \<Rightarrow> json_get kvs ''timestamp'' | _ \<Rightarrow> JNull)
      in if truthy timestamp then timestamp else JStr now)"

definition handle_delta :: "string \<Rightarrow> pydict \<Rightarrow> json \<Rightarrow> Tracker \<Rightarrow> Tracker" where
  "handle_delta now ev_deltas ev_raw tr =
     (let ts = event_ts now ev_raw
      in if baseline_state (store tr) \<noteq> ''complete''
         then tr\<lparr>store := foldl (\<lambda>s (aid, d). add_pending_delta aid d ts s) (store tr) ev_deltas\<rparr>
         else export (tr\<lparr>store := apply_deltas ev_deltas (store tr)\<rparr>))"

text \<open>The loop of \<open>process_line\<close> over the events of a line.\<close>

fun handle_event :: "string \<Rightarrow> Tracker \<Rightarrow> event \<Rightarrow> Tracker" where
  "handle_event now tr (SnapshotEvent ev_cards _ _) = handle_snapshot now ev_cards tr"
| "handle_event now tr (DeltaEvent ev_deltas _ ev_raw) = handle_delta now ev_deltas ev_raw tr"

definition handle_events :: "string \<Rightarrow> event list \<Rightarrow> Tracker \<Rightarrow> Tracker" where
  "handle_events now evs tr = foldl (handle_event now) tr evs"

text \<open>
  \<open>process_line\<close>: the line is parsed in full first, so an exception of the parser
  leaves the tracker untouched.
\<close>

definition process_line ::
  "(string \<Rightarrow> json option) \<Rightarrow> string \<Rightarrow> string \<Rightarrow> Tracker \<Rightarrow> error + Tracker" where
  "process_line loads now line tr =
     (case parse_line loads line of
        Inl e \<Rightarrow> Inl e
      | Inr evs \<Rightarrow> Inr (handle_events now evs tr))"

text \<open>
  \<open>_read_seed_csv\<close> over a CSV already split into its header and its rows of cells, as
  \<open>csv.DictReader\<close> reads it: empty rows are skipped, a row is the dict of its cells
  under the column names, and a cell that a short row does not have is \<open>None\<close>. The
  id and quantity columns are the first of the recognised names found in the lower-cased
  header; without both the import raises \<open>ValueError\<close>. Each cell goes through \<open>int\<close>
  unguarded and unclamped.
\<close>

definition header_lower :: "string list \<Rightarrow> (string \<times> string) list" where
  "header_lower fieldnames = foldl (\<lambda>d name. dict_set d (lower name) name) [] fieldnames"

fun first_field :: "string list \<Rightarrow> (string \<times> string) list \<Rightarrow> string option" where
  "first_field [] hl = None"
| "first_field (key # keys) hl =
     (case dict_get hl key of Some name \<Rightarrow> Some name | None \<Rightarrow> first_field keys hl)"

definition row_dict :: "string list \<Rightarrow> string list \<Rightarrow> (string \<times> string) list" where
  "row_dict fieldnames row = foldl (\<lambda>d (k, v). dict_set d k v) [] (zip fieldnames row)"

definition cell_int :: "(string \<times> string) list \<Rightarrow> string \<Rightarrow> error + int" where
  "cell_int row field =
     (case dict_get row field of None \<Rightarrow> Inl TypeError | Some v \<Rightarrow> int_of_str v)"

fun seed_rows ::
  "string list \<Rightarrow> string \<Rightarrow> string \<Rightarrow> pydict \<Rightarrow> string list list \<Rightarrow> error + pydict" where
  "seed_rows fieldnames id_field qty_field cs [] = Inr cs"
| "seed_rows fieldnames id_field qty_field cs (row # rows) =
     (case cell_int (row_dict fieldnames row) id_field of
        Inl e \<Rightarrow> Inl e
      | Inr arena_id \<Rightarrow>
          (case cell_int (row_dict fieldnames row) qty_field of
             Inl e \<Rightarrow> Inl e
           | Inr quantity \<Rightarrow>
               seed_rows fieldnames id_field qty_field (dict_set cs arena_id quantity) rows))"

definition read_seed_csv :: "string list \<Rightarrow> string list list \<Rightarrow> error + pydict" where
  "read_seed_csv fieldnames rows =
     (let hl = header_lower fieldnames;
          id_field = first_field [''arena_id'', ''grpid'', ''titleid'', ''id''] hl;
          qty_field = first_field [''quantity'', ''qty'', ''count''] hl
      in case (id_field, qty_field) of
           (Some i, Some q) \<Rightarrow>
             if i = [] \<or> q = [] then Inl ValueError
             else seed_rows fieldnames i q [] (filter (\<lambda>row. row \<noteq> []) rows)
         | _ \<Rightarrow> Inl ValueError)"

definition seed_from_csv :: "string list \<Rightarrow> string list list \<Rightarrow> Tracker \<Rightarrow> error + Tracker" where
  "seed_from_csv fieldnames rows tr =
     (case read_seed_csv fieldnames rows of
        Inl e \<Rightarrow> Inl e
      | Inr cs \<Rightarrow>
          Inr (export (tr\<lparr>store :=
                 apply_pending_deltas (mark_baseline_complete (replace_cards cs (store tr)))\<rparr>)))"

text \<open>A fresh database: the schema with no rows.\<close>

definition empty_store :: Store where
  "empty_store =
     \<lparr>cards = Map.empty, metadata = Map.empty, state = Map.empty, pending_deltas = []\<rparr>"

definition create_tracker :: Tracker where
  "create_tracker = \<lparr>store = empty_store, exports = 0\<rparr>"

text \<open>
  The vocabulary of the statements about runs of delta events: whether an event is a delta
  event, the deltas an event carries for one arena id, and the store's update step
  \<open>MAX(quantity + delta, 0)\<close> on its own.
\<close>

fun is_delta :: "event \<Rightarrow> bool" where
  "is_delta (DeltaEvent _ _ _) = True"
| "is_delta (SnapshotEvent _ _ _) = False"



text \<open>The net of the pending log for one arena id.\<close>

definition pending_net :: "int \<Rightarrow> PendingDelta list \<Rightarrow> int" where
  "pending_net a pending = sum_list (map pd_delta (filter (\<lambda>p. pd_arena_id p = a) pending))"

section \<open>The metadata merge (mapping.py)\<close>

text \<open>
  A candidate is a decoded Scryfall object, a dict. \<open>str(card.get(key, ""))\<close> is the
  empty string for an absent key and the string itself for a string; for any other value
  it is Python's rendering of it, the parameter \<open>repr\<close>.
\<close>

type_synonym card = "(string \<times> json) list"

definition get_str :: "(json \<Rightarrow> string) \<Rightarrow> card \<Rightarrow> string \<Rightarrow> string" where
  "get_str repr c key =
     (case dict_get c key of None \<Rightarrow> [] | Some (JStr s) \<Rightarrow> s | Some v \<Rightarrow> repr v)"

text \<open>
  \<open>_prefer(new, current)\<close>: a main-set printing replaces a promo, a promo never replaces
  a main-set printing, and otherwise the later (or equal) release date wins.
\<close>

definition prefer_card :: "(json \<Rightarrow> string) \<Rightarrow> card \<Rightarrow> card \<Rightarrow> bool" where
  "prefer_card repr new current =
     (let new_set_type = get_str repr new ''set_type'';
          cur_set_type = get_str repr current ''set_type''
      in if cur_set_type = ''promo'' \<and> new_set_type \<noteq> ''promo'' then True
         else if new_set_type = ''promo'' \<and> cur_set_type \<noteq> ''promo'' then False
         else get_str repr current ''released_at'' \<le> get_str repr new ''released_at'')"

text \<open>
  The loop of \<open>_write_mapping\<close> that fills \<open>chosen\<close>: a candidate without an
  \<open>arena_id\<close> is skipped, \<open>int(arena_id)\<close> may raise, and a candidate replaces the one
  chosen for its id unless \<open>_prefer\<close> says no.
\<close>

fun choose_cards ::
  "(json \<Rightarrow> string) \<Rightarrow> (int \<times> card) list \<Rightarrow> card list \<Rightarrow> error + (int \<times> card) list" where
  "choose_cards repr chosen [] = Inr chosen"
| "choose_cards repr chosen (c # mapping) =
     (if json_get c ''arena_id'' = JNull then choose_cards repr chosen mapping
      else (case py_int (json_get c ''arena_id'') of
              Inl e \<Rightarrow> Inl e
            | Inr arena_id \<Rightarrow>
                (case dict_get chosen arena_id of
                   None \<Rightarrow> choose_cards repr (dict_set chosen arena_id c) mapping
                 | Some current \<Rightarrow>
                     if \<not> prefer_card repr c current then choose_cards repr chosen mapping
                     else choose_cards repr (dict_set chosen arena_id c) mapping)))"

definition write_mapping ::
  "(json \<Rightarrow> string) \<Rightarrow> string \<Rightarrow> card list \<Rightarrow> Store \<Rightarrow> error + (Store \<times> nat)" where
  "write_mapping repr timestamp mapping s =
     (case choose_cards repr [] mapping of
        Inl e \<Rightarrow> Inl e
      | Inr chosen \<Rightarrow>
          (let rows = map (\<lambda>(arena_id, c).
                             (arena_id, get_str repr c ''name'', get_str repr c ''set'',
                              get_str repr c ''rarity'', timestamp)) chosen
           in Inr (if rows \<noteq> [] then upsert_metadata rows s else s, length rows)))"








section \<open>The tailer (tailer.py)\<close>

text \<open>
  What the tailer sees of the file system: the file the path names at the moment, by its
  inode, and the bytes of every file by inode. A renamed file keeps its inode and its
  bytes, so a handle opened before a rotation still reads the old file. The file is read
  in text mode: \<open>readline\<close> ends a line at a line feed, at a carriage return or at the
  pair, and hands each of them over as one line feed. Bytes are characters here; the
  decoding of UTF-8 (with undecodable bytes ignored) is not part of the model.
\<close>

record filesystem =
  at_path :: "nat option"
  files :: "nat \<rightharpoonup> string"

definition content :: "filesystem \<Rightarrow> nat \<Rightarrow> string" where
  "content fs ino = (case files fs ino of None \<Rightarrow> [] | Some bytes \<Rightarrow> bytes)"

text \<open>\<open>readline\<close> on what is left of the file: the line read and the bytes consumed.\<close>

fun readline :: "string \<Rightarrow> string \<times> nat" where
  "readline [] = ([], 0)"
| "readline (c # cs) =
     (if c = CHR 0x0A then ([CHR 0x0A], 1)
      else if c = CHR 0x0D then
        (case cs of
           [] \<Rightarrow> ([CHR 0x0A], 1)
         | c' # _ \<Rightarrow> if c' = CHR 0x0A then ([CHR 0x0A], 2) else ([CHR 0x0A], 1))
      else (case readline cs of (line, n) \<Rightarrow> (c # line, Suc n)))"

text \<open>\<open>line.rstrip("\\n")\<close>.\<close>

definition rstrip_newline :: "string \<Rightarrow> string" where
  "rstrip_newline line = rev (dropWhile (\<lambda>c. c = CHR 0x0A) (rev line))"

text \<open>
  \<open>follow\<close> is a generator. Between two resumptions it rests either at the head of the
  polling loop (after a sleep) or at the \<open>yield\<close> inside the read loop, with the handle
  open on some inode at some position and the size the last \<open>stat\<close> reported. One
  resumption runs to the next \<open>yield\<close>, the next sleep, or the return.
\<close>

record FileTailer =
  offset :: nat
  inode :: "nat option"
  last_size :: nat

datatype interval = Active | Idle

datatype outcome = Yield string | Sleep interval | Return

datatype place = AtLoop | Reading nat nat nat | Finished

record generator =
  tailer :: FileTailer
  place :: place

definition FileTailer_init :: generator where
  "FileTailer_init = \<lparr>tailer = \<lparr>offset = 0, inode = None, last_size = 0\<rparr>, place = AtLoop\<rparr>"

text \<open>The bookkeeping between \<open>stat\<close> and \<open>open\<close>.\<close>

definition stat_update :: "FileTailer \<Rightarrow> nat \<Rightarrow> nat \<Rightarrow> FileTailer" where
  "stat_update t ino st_size =
     (let file_was_rotated = (inode t \<noteq> None \<and> Some ino \<noteq> inode t);
          size_shrunk = (st_size < last_size t)
      in t\<lparr>offset := (if file_was_rotated \<or> size_shrunk then 0 else offset t),
            inode := Some ino,
            last_size := st_size\<rparr>)"

text \<open>One turn of the read loop, with the handle on \<open>ino\<close> at \<open>pos\<close>.\<close>

definition read_step ::
  "filesystem \<Rightarrow> FileTailer \<Rightarrow> nat \<Rightarrow> nat \<Rightarrow> nat \<Rightarrow> outcome \<times> generator" where
  "read_step fs t ino pos st_size =
     (case readline (drop pos (content fs ino)) of (line, n) \<Rightarrow>
        if line = []
        then (Sleep (if 0 < st_size then Active else Idle),
              \<lparr>tailer = t\<lparr>offset := pos\<rparr>, place = AtLoop\<rparr>)
        else (Yield (rstrip_newline line),
              \<lparr>tailer = t, place = Reading ino (pos + n) st_size\<rparr>))"

definition resume :: "bool \<Rightarrow> filesystem \<Rightarrow> generator \<Rightarrow> outcome \<times> generator" where
  "resume stop fs g =
     (case place g of
        Finished \<Rightarrow> (Return, g)
      | Reading ino pos st_size \<Rightarrow> read_step fs (tailer g) ino pos st_size
      | AtLoop \<Rightarrow>
          if stop then (Return, g\<lparr>place := Finished\<rparr>)
          else (case at_path fs of
                  None \<Rightarrow>
                    (Sleep Idle,
                     \<lparr>tailer = (tailer g)\<lparr>inode := None, offset := 0\<rparr>, place = AtLoop\<rparr>)
                | Some ino \<Rightarrow>
                    (let st_size = length (content fs ino);
                         t = stat_update (tailer g) ino st_size
                     in read_step fs t ino (offset t) st_size)))"

text \<open>
  \<open>next(gen)\<close> while the file system stands still: resume until a line comes or the
  generator returns. With nothing to read it polls for ever; the fuel counts the polls, and
  \<open>None\<close> is a call that is still polling when the fuel is spent.
\<close>

fun next_line ::
  "nat \<Rightarrow> bool \<Rightarrow> filesystem \<Rightarrow> generator \<Rightarrow> (string option \<times> generator) option" where
  "next_line 0 stop fs g = None"
| "next_line (Suc fuel) stop fs g =
     (case resume stop fs g of
        (Yield line, g') \<Rightarrow> Some (Some line, g')
      | (Return, g') \<Rightarrow> Some (None, g')
      | (Sleep _, g') \<Rightarrow> next_line fuel stop fs g')"

text \<open>The generator states a run can be in: the fresh one, and any resumption of one.\<close>

inductive reachable :: "generator \<Rightarrow> bool" where
  init: "reachable FileTailer_init"
| step: "reachable g \<Longrightarrow> resume stop fs g = (out, g') \<Longrightarrow> reachable g'"

text \<open>
  The file systems of tests/test_tailer.py: the log (inode 1) after \<open>first\<close> is
  appended, and after the log is renamed away and a new file (inode 2) holding
  \<open>second\<close> takes its name.
\<close>

definition fs_first :: filesystem where
  "fs_first = \<lparr>at_path = Some 1, files = [1 \<mapsto> ''first'' @ [CHR 0x0A]]\<rparr>"

definition fs_rotated :: filesystem where
  "fs_rotated = \<lparr>at_path = Some 2,
                  files = [1 \<mapsto> ''first'' @ [CHR 0x0A], 2 \<mapsto> ''second'' @ [CHR 0x0A]]\<rparr>"

text \<open>
  The generator's states in that test: suspended at the \<open>yield\<close> of \<open>first\<close>; back at
  the loop after the old handle ran dry; suspended at the \<open>yield\<close> of \<open>second\<close>; and
  polling the new file with nothing left to read.
\<close>

definition g_first :: generator where
  "g_first = \<lparr>tailer = \<lparr>offset = 0, inode = Some 1, last_size = 6\<rparr>, place = Reading 1 6 6\<rparr>"

definition g_drained :: generator where
  "g_drained = \<lparr>tailer = \<lparr>offset = 6, inode = Some 1, last_size = 6\<rparr>, place = AtLoop\<rparr>"

definition g_second :: generator where
  "g_second = \<lparr>tailer = \<lparr>offset = 0, inode = Some 2, last_size = 7\<rparr>, place = Reading 2 7 7\<rparr>"

definition g_idle :: generator where
  "g_idle = \<lparr>tailer = \<lparr>offset = 7, inode = Some 2, last_size = 7\<rparr>, place = AtLoop\<rparr>"

section \<open>Vocabulary and fixtures for the extractor\<close>

text \<open>
  \<open>changes_of\<close> lists what the entries of a payload contribute, in order: the id and
  the change of every entry that has both.
\<close>

fun changes_of :: "(json \<times> int) list \<Rightarrow> error + (int \<times> int) list" where
  "changes_of [] = Inr []"
| "changes_of ((entry, multiplier) # entries) =
     (case entry_change entry multiplier of
        Inl e \<Rightarrow> Inl e
      | Inr r \<Rightarrow>
          (case changes_of entries of
             Inl e \<Rightarrow> Inl e
           | Inr later \<Rightarrow> Inr (case r of None \<Rightarrow> later | Some ac \<Rightarrow> ac # later)))"

text \<open>
  Decoded payloads: \<open>+2\<close> and \<open>-2\<close> for card 7; the same with an entry of quantity 0
  for card 8; a delta object whose id is not a number; a well-formed delta object; an
  object with a delta key and a snapshot key. \<open>loads_fixture\<close> decodes the two snippets
  used below and rejects everything else.
\<close>

definition plus_minus :: json where
  "plus_minus = JObj [(''adds'', JArr [JObj [(''grpId'', JInt 7), (''quantity'', JInt 2)]]),
                      (''removes'', JArr [JObj [(''grpId'', JInt 7), (''quantity'', JInt 2)]])]"

definition plus_minus_zero :: json where
  "plus_minus_zero =
     JObj [(''adds'', JArr [JObj [(''grpId'', JInt 7), (''quantity'', JInt 2)],
                            JObj [(''grpId'', JInt 8), (''quantity'', JInt 0)]]),
           (''removes'', JArr [JObj [(''grpId'', JInt 7), (''quantity'', JInt 2)]])]"

definition bad_id :: json where
  "bad_id = JObj [(''inventoryDelta'',
             JObj [(''adds'', JArr [JObj [(''grpid'', JStr ''abc''), (''quantity'', JInt 2)]])])]"

definition good_delta :: json where
  "good_delta = JObj [(''inventoryDelta'',
             JObj [(''adds'', JArr [JObj [(''grpId'', JInt 55555), (''quantity'', JInt 2)]])])]"

definition loads_fixture :: "string \<Rightarrow> json option" where
  \<open>loads_fixture s =
     (if s = ''{"inventoryDelta":{"adds":[{"grpid":"abc","quantity":2}]}}'' then Some bad_id
      else if s = ''{"inventoryDelta":{"adds":[{"grpId":55555,"quantity":2}]}}'' then Some good_delta
      else None)\<close>

definition both_kinds :: json where
  "both_kinds =
     JObj [(''inventoryDelta'',
             JObj [(''adds'', JArr [JObj [(''grpId'', JInt 55555), (''quantity'', JInt 2)]])]),
           (''ownedCards'', JArr [JObj [(''grpId'', JInt 12345), (''qty'', JInt 2)]])]"

section \<open>Properties of dicts\<close>

lemma dict_get_set: "dict_get (dict_set d k v) k' = (if k' = k then Some v else dict_get d k')"
  by (induction d) (auto simp: dict_get_def)

lemma keys_dict_set: "fst ` set (dict_set d k v) = insert k (fst ` set d)"
proof (induction d)
  case Nil
  then show ?case by simp
next
  case (Cons x d)
  obtain k' v' where x: "x = (k', v')" by (cases x)
  show ?case
  proof (cases "k' = k")
    case True
    with x show ?thesis by simp
  next
    case False
    with x Cons.IH show ?thesis by (simp add: insert_commute)
  qed
qed

lemma distinct_dict_set: "distinct (map fst d) \<Longrightarrow> distinct (map fst (dict_set d k v))"
proof (induction d)
  case Nil
  then show ?case by simp
next
  case (Cons x d)
  obtain k' v' where x: "x = (k', v')" by (cases x)
  show ?case
  proof (cases "k' = k")
    case True
    with Cons.prems x show ?thesis by simp
  next
    case False
    have "k' \<notin> fst ` set (dict_set d k v)"
      using Cons.prems x False by (simp add: keys_dict_set)
    with Cons x False show ?thesis by simp
  qed
qed

lemma add_change_distinct:
  "distinct (map fst d) \<Longrightarrow> distinct (map fst (foldl add_change d xs))"
  by (induction xs arbitrary: d) (auto simp: add_change_def distinct_dict_set)

lemma add_change_get:
  "dict_get (foldl add_change d xs) a =
     (if a \<in> fst ` set xs
      then Some ((case dict_get d a of None \<Rightarrow> 0 | Some v \<Rightarrow> v) +
                 sum_list (map snd (filter (\<lambda>ac. fst ac = a) xs)))
      else dict_get d a)"
proof (induction xs arbitrary: d)
  case Nil
  then show ?case by simp
next
  case (Cons x xs)
  obtain k c where x: "x = (k, c)" by (cases x)
  have g: "dict_get (add_change d (k, c)) a =
             (if a = k then Some ((case dict_get d a of None \<Rightarrow> 0 | Some v \<Rightarrow> v) + c)
              else dict_get d a)"
    by (simp add: add_change_def dict_get_set)
  have z: "a \<notin> fst ` set xs \<Longrightarrow> sum_list (map snd (filter (\<lambda>ac. fst ac = a) xs)) = 0" for a
    by (induction xs) auto
  show ?case
    unfolding x foldl_Cons Cons.IH[of "add_change d (k, c)"] g
    using z[of a] by (auto simp: image_iff)
qed

lemma sum_filter_nonzero:
  "sum_list (map snd (filter (\<lambda>ac. fst ac = a) (filter (\<lambda>ac. snd ac \<noteq> 0) chs))) =
   sum_list (map snd (filter (\<lambda>ac. fst ac = a) (chs :: (int \<times> int) list)))"
  by (induction chs) auto

section \<open>Properties of the store and the reconciler\<close>

lemma foldl_upsert_other:
  "aid \<notin> fst ` set ds \<Longrightarrow> foldl upsert_card tbl ds aid = tbl aid"
  by (induction ds arbitrary: tbl) (auto simp: upsert_card_def split: option.splits)

lemma foldl_upsert_once:
  "distinct (map fst ds) \<Longrightarrow> (aid, d) \<in> set ds \<Longrightarrow>
   foldl upsert_card tbl ds aid =
     (case tbl aid of None \<Rightarrow> Some d | Some q \<Rightarrow> Some (max (q + d) 0))"
proof (induction ds arbitrary: tbl)
  case Nil
  then show ?case by simp
next
  case (Cons x ds)
  show ?case
  proof (cases "x = (aid, d)")
    case True
    with Cons.prems have "aid \<notin> fst ` set ds" by auto
    then have "foldl upsert_card (upsert_card tbl x) ds aid = upsert_card tbl x aid"
      by (rule foldl_upsert_other)
    moreover have "upsert_card tbl (aid, d) aid =
        (case tbl aid of None \<Rightarrow> Some d | Some q \<Rightarrow> Some (max (q + d) 0))"
      by (simp add: upsert_card_def split: option.splits)
    ultimately show ?thesis using True by simp
  next
    case False
    with Cons.prems have in_tl: "(aid, d) \<in> set ds" and ne: "fst x \<noteq> aid" and dist: "distinct (map fst ds)"
      by (auto simp: image_iff)
    from ne have "upsert_card tbl x aid = tbl aid"
      by (cases x) (auto simp: upsert_card_def split: option.splits)
    with Cons.IH[OF dist in_tl, of "upsert_card tbl x"] show ?thesis by simp
  qed
qed

lemma state_apply_deltas: "state (apply_deltas ds s) = state s"
  by (simp add: apply_deltas_def)

lemma baseline_apply_deltas: "baseline_state (apply_deltas ds s) = baseline_state s"
  by (simp add: baseline_state_def get_state_def state_apply_deltas)







lemma aggregate_as_changes:
  "foldl aggregate_step agg pending =
   foldl add_change agg (map (\<lambda>p. (pd_arena_id p, pd_delta p)) pending)"
  by (induction pending arbitrary: agg) (simp_all add: aggregate_step_def add_change_def)

lemma aggregate_get:
  "dict_get (foldl aggregate_step [] pending) a =
     (if a \<in> pd_arena_id ` set pending then Some (pending_net a pending) else None)"
proof -
  have e: "dict_get ([] :: pydict) a = None" by (simp add: dict_get_def)
  have s: "sum_list (map snd (filter (\<lambda>ac. fst ac = a) (map (\<lambda>p. (pd_arena_id p, pd_delta p)) pending))) =
           pending_net a pending"
    unfolding pending_net_def by (induction pending) auto
  have i: "fst ` set (map (\<lambda>p. (pd_arena_id p, pd_delta p)) pending) = pd_arena_id ` set pending"
    by (auto simp: image_iff)
  show ?thesis
    by (simp only: aggregate_as_changes add_change_get e s i) simp
qed

lemma aggregate_distinct: "distinct (map fst (foldl aggregate_step [] pending))"
  unfolding aggregate_as_changes by (rule add_change_distinct) simp

lemma apply_pending_cards:
  "cards (apply_pending_deltas s) a =
     (if a \<in> pd_arena_id ` set (pending_deltas s)
      then (case cards s a of
              None \<Rightarrow> Some (pending_net a (pending_deltas s))
            | Some q \<Rightarrow> Some (max (q + pending_net a (pending_deltas s)) 0))
      else cards s a)"
proof (cases "pending_deltas s = []")
  case True
  then show ?thesis by (simp add: apply_pending_deltas_def iter_pending_deltas_def)
next
  case False
  let ?agg = "foldl aggregate_step [] (pending_deltas s)"
  from False obtain p ps where "pending_deltas s = p # ps" by (cases "pending_deltas s") auto
  then have "pd_arena_id p \<in> pd_arena_id ` set (pending_deltas s)" by simp
  with aggregate_get[of "pending_deltas s" "pd_arena_id p"] have ne: "?agg \<noteq> []"
    by (auto simp: dict_get_def)
  have c: "cards (apply_pending_deltas s) a = foldl upsert_card (cards s) ?agg a"
    using False ne
    by (simp add: apply_pending_deltas_def iter_pending_deltas_def apply_deltas_def
        clear_pending_deltas_def)
  show ?thesis
  proof (cases "a \<in> pd_arena_id ` set (pending_deltas s)")
    case True
    with aggregate_get[of "pending_deltas s" a]
    have "map_of ?agg a = Some (pending_net a (pending_deltas s))" by (simp add: dict_get_def)
    then have "(a, pending_net a (pending_deltas s)) \<in> set ?agg" by (rule map_of_SomeD)
    from foldl_upsert_once[OF aggregate_distinct this, of "cards s"] c True show ?thesis by simp
  next
    case no: False
    with aggregate_get[of "pending_deltas s" a] have "map_of ?agg a = None"
      by (simp add: dict_get_def)
    then have "a \<notin> fst ` set ?agg" by (simp add: map_of_eq_None_iff)
    from foldl_upsert_other[OF this, of "cards s"] c no show ?thesis by simp
  qed
qed

lemma apply_pending_clears: "pending_deltas (apply_pending_deltas s) = []"
  by (simp add: apply_pending_deltas_def iter_pending_deltas_def clear_pending_deltas_def
      apply_deltas_def Let_def)

lemma replace_cards_get:
  "distinct (map fst cs) \<Longrightarrow> cards (replace_cards cs s) a = map_of cs a"
proof -
  have "foldl (\<lambda>tbl (aid, qty). tbl(aid \<mapsto> qty)) tbl cs a =
          (case map_of (rev cs) a of None \<Rightarrow> tbl a | Some q \<Rightarrow> Some q)" for tbl
    by (induction cs arbitrary: tbl) (auto split: option.splits)
  moreover assume "distinct (map fst cs)"
  then have "map_of (rev cs) a = map_of cs a"
    by (metis distinct_rev map_of_inject_set rev_map set_rev)
  ultimately show ?thesis by (simp add: replace_cards_def split: option.splits)
qed

lemma snapshot_drain_quantities:
  assumes "distinct (map fst cs)"
  shows "cards (store (handle_snapshot now cs tr)) a =
     (if a \<in> pd_arena_id ` set (pending_deltas (store tr))
      then (case map_of cs a of
              None \<Rightarrow> Some (pending_net a (pending_deltas (store tr)))
            | Some q \<Rightarrow> Some (max (q + pending_net a (pending_deltas (store tr))) 0))
      else map_of cs a)"
    and "pending_deltas (store (handle_snapshot now cs tr)) = []"
proof -
  let ?s = "set_state ''last_snapshot'' now (mark_baseline_complete (replace_cards cs (store tr)))"
  have p: "pending_deltas ?s = pending_deltas (store tr)"
    by (simp add: set_state_def mark_baseline_complete_def replace_cards_def)
  have c: "cards ?s a = map_of cs a"
    using replace_cards_get[OF assms, of "store tr" a]
    by (simp add: set_state_def mark_baseline_complete_def)
  have st: "store (handle_snapshot now cs tr) = apply_pending_deltas ?s"
    by (simp add: handle_snapshot_def export_def)
  show "cards (store (handle_snapshot now cs tr)) a =
     (if a \<in> pd_arena_id ` set (pending_deltas (store tr))
      then (case map_of cs a of
              None \<Rightarrow> Some (pending_net a (pending_deltas (store tr)))
            | Some q \<Rightarrow> Some (max (q + pending_net a (pending_deltas (store tr))) 0))
      else map_of cs a)"
    unfolding st apply_pending_cards p c ..
  show "pending_deltas (store (handle_snapshot now cs tr)) = []"
    unfolding st by (rule apply_pending_clears)
qed



text \<open>
  C1. The claim is that after every operation every stored quantity is at least 0. From a
  fresh database, a snapshot \<open>{1: 3}\<close> followed by a delta event \<open>{5: -2}\<close> for a
  card that has no row leaves card 5 stored with quantity \<open>-2\<close>: the insert branch of
  \<open>apply_deltas\<close> has no floor, while its update branch has one. A seed CSV with the
  row \<open>5,-3\<close> leaves card 5 at \<open>-3\<close>: the import does not floor its quantities, as
  the parser does for a snapshot.
\<close>

theorem negative_quantity_after_delta:
  "cards (store (handle_delta ''t1'' [(5, -2)] (JObj [])
      (handle_snapshot ''t0'' [(1, 3)] create_tracker))) 5 = Some (-2) \<and>
   (case seed_from_csv [''arena_id'', ''quantity''] [[''5'', ''-3'']] create_tracker of
      Inl e \<Rightarrow> None
    | Inr tr \<Rightarrow> cards (store tr) 5) = Some (- 3)"
  by (simp add: handle_delta_def handle_snapshot_def create_tracker_def empty_store_def
      export_def apply_pending_deltas_def iter_pending_deltas_def set_state_def
      mark_baseline_complete_def replace_cards_def baseline_state_def get_state_def
      apply_deltas_def upsert_card_def event_ts_def json_get_def dict_get_def
      seed_from_csv_def read_seed_csv_def header_lower_def lower_def lower_char_def
      row_dict_def cell_int_def int_of_str_def strip_def is_space_def is_digit_def
      digit_val_def)






text \<open>
  C2. The claim is that after the drain every item holds
  \<open>max 0 (snapshot quantity + net of its queued deltas)\<close>, with 0 for an item the snapshot
  does not have. From a fresh database, the delta \<open>{7: -2}\<close> queued while the baseline is
  missing and then the snapshot \<open>{1: 3}\<close> leave card 7 at \<open>-2\<close>, not at 0: the drain
  goes through the same unfloored insert of \<open>apply_deltas\<close>. The queue is cleared and
  card 1 is as the snapshot gave it. (\<open>snapshot_drain_quantities\<close> above gives the
  quantity of every item after a snapshot and its drain.)
\<close>

theorem drain_inserts_negative_net:
  "cards (store (handle_snapshot ''t1'' [(1, 3)]
      (handle_delta ''t0'' [(7, -2)] (JObj []) create_tracker))) 7 = Some (-2) \<and>
   cards (store (handle_snapshot ''t1'' [(1, 3)]
      (handle_delta ''t0'' [(7, -2)] (JObj []) create_tracker))) 1 = Some 3 \<and>
   pending_deltas (store (handle_snapshot ''t1'' [(1, 3)]
      (handle_delta ''t0'' [(7, -2)] (JObj []) create_tracker))) = []"
  by (simp add: handle_delta_def handle_snapshot_def create_tracker_def empty_store_def
      export_def apply_pending_deltas_def iter_pending_deltas_def set_state_def
      mark_baseline_complete_def replace_cards_def baseline_state_def get_state_def
      apply_deltas_def upsert_card_def event_ts_def json_get_def dict_get_def
      add_pending_delta_def aggregate_step_def clear_pending_deltas_def)

section \<open>Properties of the metadata merge\<close>












section \<open>Properties of the tailer\<close>

lemma reachable_inv:
  "reachable g \<Longrightarrow>
   inode (tailer g) = None \<longrightarrow> offset (tailer g) = 0 \<and> place g \<noteq> Reading i p s"
proof (induction arbitrary: i p s rule: reachable.induct)
  case init
  then show ?case by (simp add: FileTailer_init_def)
next
  case (step g stop fs out g')
  show ?case
  proof (cases "place g")
    case AtLoop
    with step.hyps(2) step.IH show ?thesis
      by (auto simp: resume_def stat_update_def Let_def read_step_def
          split: if_splits option.splits prod.splits)
  next
    case (Reading ino pos sz)
    with step.IH[of ino pos sz] have "inode (tailer g) \<noteq> None" by auto
    with Reading step.hyps(2) show ?thesis
      by (auto simp: resume_def read_step_def split: if_splits prod.splits)
  next
    case Finished
    with step.hyps(2) step.IH show ?thesis by (auto simp: resume_def)
  qed
qed

lemma reachable_offset:
  "reachable g \<Longrightarrow> inode (tailer g) = None \<Longrightarrow> offset (tailer g) = 0"
  using reachable_inv by blast

lemma next_first: "next_line 1 False fs_first FileTailer_init = Some (Some ''first'', g_first)"
  by (simp add: resume_def read_step_def stat_update_def content_def fs_first_def
      FileTailer_init_def rstrip_newline_def g_first_def)

lemma next_second: "next_line 2 False fs_rotated g_first = Some (Some ''second'', g_second)"
  by (simp add: numeral_2_eq_2 resume_def read_step_def stat_update_def content_def fs_rotated_def
      rstrip_newline_def g_first_def g_second_def)

lemma resume_second: "resume False fs_rotated g_second = (Sleep Active, g_idle)"
  by (simp add: resume_def read_step_def content_def fs_rotated_def g_second_def g_idle_def)

lemma resume_idle: "resume False fs_rotated g_idle = (Sleep Active, g_idle)"
  by (simp add: resume_def read_step_def stat_update_def content_def fs_rotated_def g_idle_def)

lemma next_idle: "next_line fuel False fs_rotated g_idle = None"
  by (induction fuel) (simp_all add: resume_idle)

lemma next_third: "next_line fuel False fs_rotated g_second = None"
  by (cases fuel) (simp_all add: resume_second next_idle)

text \<open>
  C9. In every poll cycle of a run in which the path names a file, if that file's inode is
  not the one last seen, or its size is below the size last seen, the file is read from
  offset 0. And in the run of the test (\<open>first\<close> appended, the log renamed away, a new
  log holding \<open>second\<close>), the first \<open>next\<close> yields \<open>first\<close>, the second yields
  \<open>second\<close>, and a third yields nothing however long it polls.
\<close>

theorem rotation_resets_offset:
  assumes "reachable g" and "place g = AtLoop" and "at_path fs = Some ino"
    and "inode (tailer g) \<noteq> Some ino \<or> length (content fs ino) < last_size (tailer g)"
  shows "offset (stat_update (tailer g) ino (length (content fs ino))) = 0 \<and>
         resume False fs g =
           read_step fs (stat_update (tailer g) ino (length (content fs ino))) ino 0
             (length (content fs ino)) \<and>
         next_line 1 False fs_first FileTailer_init = Some (Some ''first'', g_first) \<and>
         next_line 2 False fs_rotated g_first = Some (Some ''second'', g_second) \<and>
         (\<forall>fuel. next_line fuel False fs_rotated g_second = None)"
proof -
  from reachable_offset[OF assms(1)] assms(4)
  have z: "offset (stat_update (tailer g) ino (length (content fs ino))) = 0"
    by (auto simp: stat_update_def)
  with assms(2,3)
  have r: "resume False fs g =
             read_step fs (stat_update (tailer g) ino (length (content fs ino))) ino 0
               (length (content fs ino))"
    by (simp add: resume_def Let_def)
  from z r next_first next_second next_third show ?thesis by blast
qed

theorem rotation_resets_offset_witness:
  "reachable g_drained \<and> place g_drained = AtLoop \<and> at_path fs_rotated = Some 2 \<and>
   inode (tailer g_drained) \<noteq> Some 2 \<and>
   offset (stat_update (tailer g_drained) 2 (length (content fs_rotated 2))) = 0 \<and>
   resume False fs_rotated g_drained = (Yield ''second'', g_second)"
proof -
  have s1: "resume False fs_first FileTailer_init = (Yield ''first'', g_first)"
    by (simp add: resume_def read_step_def stat_update_def content_def fs_first_def
        FileTailer_init_def rstrip_newline_def g_first_def)
  have s2: "resume False fs_rotated g_first = (Sleep Active, g_drained)"
    by (simp add: resume_def read_step_def content_def fs_rotated_def g_first_def
        g_drained_def)
  have r: "reachable g_drained"
    using reachable.step[OF reachable.step[OF reachable.init s1] s2] .
  have p: "place g_drained = AtLoop" by (simp add: g_drained_def)
  have a: "at_path fs_rotated = Some 2" by (simp add: fs_rotated_def)
  have i: "inode (tailer g_drained) \<noteq> Some 2" by (simp add: g_drained_def)
  have y: "resume False fs_rotated g_drained = (Yield ''second'', g_second)"
    by (simp add: resume_def read_step_def stat_update_def content_def fs_rotated_def
        rstrip_newline_def g_drained_def g_second_def)
  from rotation_resets_offset[OF r p a disjI1[OF i]]
  have "offset (stat_update (tailer g_drained) 2 (length (content fs_rotated 2))) = 0"
    by blast
  with r p a i y show ?thesis by blast
qed

section \<open>Properties of the extractor\<close>

lemma normalise_entries_fold:
  "normalise_entries deltas entries = Inr final \<Longrightarrow>
   \<exists>chs. changes_of entries = Inr chs \<and>
         final = foldl add_change deltas (filter (\<lambda>ac. snd ac \<noteq> 0) chs)"
proof (induction entries arbitrary: deltas)
  case Nil
  then show ?case by simp
next
  case (Cons x entries)
  obtain entry m where x: "x = (entry, m)" by (cases x)
  from Cons.prems x obtain r where r: "entry_change entry m = Inr r"
    by (auto split: sum.splits)
  show ?case
  proof (cases r)
    case None
    with Cons.prems x r have "normalise_entries deltas entries = Inr final" by simp
    from Cons.IH[OF this] x r None show ?thesis by auto
  next
    case (Some ac)
    obtain a c where ac: "ac = (a, c)" by (cases ac)
    show ?thesis
    proof (cases "c = 0")
      case True
      with Cons.prems x r Some ac have "normalise_entries deltas entries = Inr final" by simp
      from Cons.IH[OF this] x r Some ac True show ?thesis by auto
    next
      case False
      with Cons.prems x r Some ac
      have "normalise_entries (add_change deltas (a, c)) entries = Inr final"
        by (simp add: add_change_def)
      from Cons.IH[OF this] x r Some ac False show ?thesis by auto
    qed
  qed
qed

lemma delta_events_of_nonempty:
  "delta_events_of kvs = Inr found \<Longrightarrow> (key, deltas) \<in> set found \<Longrightarrow> deltas \<noteq> []"
proof (induction kvs arbitrary: found)
  case Nil
  then show ?case by simp
next
  case (Cons kv kvs)
  obtain k v where kv: "kv = (k, v)" by (cases kv)
  show ?case
  proof (cases "k \<in> set DELTA_EVENT_KEYS")
    case True
    with Cons.prems(1) kv obtain ds later where
      n: "normalise_deltas v = Inr ds" and l: "delta_events_of kvs = Inr later"
      and f: "found = (if ds \<noteq> [] then (k, ds) # later else later)"
      by (auto split: sum.splits)
    from Cons.IH[OF l] Cons.prems(2) f show ?thesis
      by (auto split: if_splits)
  next
    case False
    with Cons.prems kv Cons.IH show ?thesis by simp
  qed
qed

lemma delta_events_of_matches:
  "delta_events_of kvs = Inr found \<Longrightarrow>
   map (\<lambda>(key, deltas). (key, Inr deltas)) found =
     filter (\<lambda>(key, r). r \<noteq> Inr [])
       (map (\<lambda>(key, v). (key, normalise_deltas v))
          (filter (\<lambda>(key, v). key \<in> set DELTA_EVENT_KEYS) kvs))"
proof (induction kvs arbitrary: found)
  case Nil
  then show ?case by simp
next
  case (Cons kv kvs)
  obtain k v where kv: "kv = (k, v)" by (cases kv)
  show ?case
  proof (cases "k \<in> set DELTA_EVENT_KEYS")
    case True
    with Cons.prems(1) kv obtain ds later where
      n: "normalise_deltas v = Inr ds" and l: "delta_events_of kvs = Inr later"
      and f: "found = (if ds \<noteq> [] then (k, ds) # later else later)"
      by (auto split: sum.splits)
    from Cons.IH[OF l] kv True n f show ?thesis by simp
  next
    case False
    with Cons.prems kv Cons.IH show ?thesis by simp
  qed
qed

lemma filter_nonempty_id:
  "\<forall>(key, deltas) \<in> set found. deltas \<noteq> [] \<Longrightarrow>
   filter (\<lambda>(source, deltas). deltas \<noteq> []) found = found"
  by (induction found) auto

text \<open>
  C5, as stated: an item whose summed change is 0 is left out of the event. For the
  payload with \<open>+2\<close> under \<open>adds\<close> and \<open>2\<close> under \<open>removes\<close> for card 7, the
  normalised dict holds card 7 with value 0, and the object yields a delta event carrying
  it.
\<close>

theorem net_zero_item_kept_counterexample:
  "normalise_deltas plus_minus = Inr [(7, 0)] \<and>
   dict_get [(7::int, 0::int)] 7 = Some 0 \<and>
   parse_json_object (JObj [(''inventoryDelta'', plus_minus)]) =
     Inr [DeltaEvent [(7, 0)] ''inventorydelta'' (JObj [(''inventoryDelta'', plus_minus)])]"
  by code_simp

text \<open>
  C5, amended. When the normalisation returns, the dict has one entry per item that has
  at least one entry with a non-zero change, and its value is the sum of the changes of
  that item's entries. An entry whose own change is 0 is passed over, so it creates no
  item; a sum that comes to 0 from non-zero changes stays in the dict as 0.
\<close>

theorem normalise_deltas_sums_nonzero_entries:
  assumes "normalise_deltas v = Inr deltas"
  shows "\<exists>chs. changes_of (collect_card_like_entries v) = Inr chs \<and>
           distinct (map fst deltas) \<and>
           (\<forall>a. dict_get deltas a =
              (if \<exists>c. (a, c) \<in> set chs \<and> c \<noteq> 0
               then Some (sum_list (map snd (filter (\<lambda>ac. fst ac = a) chs)))
               else None))"
proof -
  from assms obtain chs where chs: "changes_of (collect_card_like_entries v) = Inr chs"
    and d: "deltas = foldl add_change [] (filter (\<lambda>ac. snd ac \<noteq> 0) chs)"
    using normalise_entries_fold[of "[]" "collect_card_like_entries v" deltas]
    by (auto simp: normalise_deltas_def)
  have dist: "distinct (map fst deltas)"
    unfolding d by (rule add_change_distinct) simp
  have "\<forall>a. dict_get deltas a =
              (if \<exists>c. (a, c) \<in> set chs \<and> c \<noteq> 0
               then Some (sum_list (map snd (filter (\<lambda>ac. fst ac = a) chs)))
               else None)"
  proof
    fix a
    have m: "a \<in> fst ` set (filter (\<lambda>ac. snd ac \<noteq> 0) chs) \<longleftrightarrow> (\<exists>c. (a, c) \<in> set chs \<and> c \<noteq> 0)"
      by (force simp: image_iff)
    show "dict_get deltas a =
              (if \<exists>c. (a, c) \<in> set chs \<and> c \<noteq> 0
               then Some (sum_list (map snd (filter (\<lambda>ac. fst ac = a) chs)))
               else None)"
    proof -
      have e: "dict_get ([] :: pydict) a = None" by (simp add: dict_get_def)
      show ?thesis
        by (simp only: d add_change_get m sum_filter_nonzero e) simp
    qed
  qed
  with chs dist show ?thesis by blast
qed

theorem normalise_deltas_sums_nonzero_entries_witness:
  "normalise_deltas plus_minus_zero = Inr [(7, 0)] \<and>
   changes_of (collect_card_like_entries plus_minus_zero) = Inr [(7, 2), (8, 0), (7, - 2)] \<and>
   distinct (map fst [(7::int, 0::int)]) \<and>
   dict_get [(7::int, 0::int)] 7 = Some (2 + - 2) \<and>
   dict_get [(7::int, 0::int)] 8 = None"
proof -
  have h: "normalise_deltas plus_minus_zero = Inr [(7, 0)]"
    by code_simp
  have c: "changes_of (collect_card_like_entries plus_minus_zero) = Inr [(7, 2), (8, 0), (7, - 2)]"
    by code_simp
  from normalise_deltas_sums_nonzero_entries[OF h]
  have d: "distinct (map fst [(7::int, 0::int)])" by blast
  have g: "dict_get [(7::int, 0::int)] 7 = Some (2 + - 2)" "dict_get [(7::int, 0::int)] 8 = None"
    by (simp_all add: dict_get_def)
  from h c d g show ?thesis by blast
qed

text \<open>
  C6. The claim is that \<open>parse_line\<close> never raises and that a value that cannot be
  coerced costs only its field or entry. On a line holding a well-formed delta object and
  then a delta object whose \<open>grpid\<close> is the string \<open>abc\<close>, \<open>parse_line\<close> raises
  \<open>ValueError\<close>: \<open>int\<close> is unguarded under the id keys (only the \<open>"id"\<close> fallback and
  the count keys are guarded), and \<open>_parse_json_object\<close> is called outside the \<open>try\<close>.
  The event of the first object, which the line yields on its own, is lost with it.
\<close>

theorem parse_line_raises_on_bad_id:
  \<open>parse_line loads_fixture
     ''{"inventoryDelta":{"adds":[{"grpId":55555,"quantity":2}]}} {"inventoryDelta":{"adds":[{"grpid":"abc","quantity":2}]}}'' =
     Inl ValueError \<and>
   parse_line loads_fixture ''{"inventoryDelta":{"adds":[{"grpId":55555,"quantity":2}]}}'' =
     Inr [DeltaEvent [(55555, 2)] ''inventorydelta'' good_delta]\<close>
  by code_simp

text \<open>
  C7. When \<open>_parse_json_object\<close> returns, its events are all delta events or all
  snapshot events, never both. For a dict, the delta events are one per walked key that is
  a delta key and whose value normalises to a non-empty dict, in walk order; when there is
  at least one, they are the whole result. Only when there is none is the object searched
  for snapshot cards, and it then yields exactly one snapshot event if they are not empty
  and nothing otherwise. A value that is not a dict yields nothing.
\<close>

theorem delta_takes_precedence:
  assumes "parse_json_object obj = Inr evs"
  shows "((\<forall>e \<in> set evs. is_delta e) \<or> (\<forall>e \<in> set evs. \<not> is_delta e)) \<and>
         (\<not> is_dict obj \<longrightarrow> evs = []) \<and>
         (is_dict obj \<longrightarrow>
           (\<exists>found. extract_delta_events obj = Inr found \<and>
              map (\<lambda>(key, deltas). (key, Inr deltas)) found =
                filter (\<lambda>(key, r). r \<noteq> Inr [])
                  (map (\<lambda>(key, v). (key, normalise_deltas v))
                     (filter (\<lambda>(key, v). key \<in> set DELTA_EVENT_KEYS) (walk_dict obj))) \<and>
              (found \<noteq> [] \<longrightarrow>
                 evs = map (\<lambda>(source, deltas). DeltaEvent deltas source obj) found) \<and>
              (found = [] \<longrightarrow>
                 (\<exists>snapshot_cards. extract_snapshot_cards obj = Inr snapshot_cards \<and>
                    evs = (if snapshot_cards \<noteq> []
                           then [SnapshotEvent snapshot_cards ''snapshot'' obj] else [])))))"
proof (cases "is_dict obj")
  case False
  with assms show ?thesis by (simp add: parse_json_object_def)
next
  case True
  with assms obtain found where f: "extract_delta_events obj = Inr found"
    by (auto simp: parse_json_object_def split: sum.splits)
  have ne: "\<forall>(key, deltas) \<in> set found. deltas \<noteq> []"
    using delta_events_of_nonempty f by (fastforce simp: extract_delta_events_def)
  have m: "map (\<lambda>(key, deltas). (key, Inr deltas)) found =
             filter (\<lambda>(key, r). r \<noteq> Inr [])
               (map (\<lambda>(key, v). (key, normalise_deltas v))
                  (filter (\<lambda>(key, v). key \<in> set DELTA_EVENT_KEYS) (walk_dict obj)))"
    using delta_events_of_matches f by (simp add: extract_delta_events_def)
  show ?thesis
  proof (cases "found = []")
    case e: True
    with assms True f obtain cs where c: "extract_snapshot_cards obj = Inr cs"
      and ev: "evs = (if cs \<noteq> [] then [SnapshotEvent cs ''snapshot'' obj] else [])"
      by (auto simp: parse_json_object_def split: sum.splits)
    from ev have "\<forall>e \<in> set evs. \<not> is_delta e" by simp
    with True f m e c ev show ?thesis by blast
  next
    case n: False
    with assms True f filter_nonempty_id[OF ne]
    have ev: "evs = map (\<lambda>(source, deltas). DeltaEvent deltas source obj) found"
      by (simp add: parse_json_object_def)
    then have "\<forall>e \<in> set evs. is_delta e" by auto
    with True f m n ev show ?thesis by blast
  qed
qed

theorem delta_takes_precedence_witness:
  "parse_json_object both_kinds = Inr [DeltaEvent [(55555, 2)] ''inventorydelta'' both_kinds] \<and>
   is_delta (DeltaEvent [(55555, 2)] ''inventorydelta'' both_kinds) \<and>
   is_dict both_kinds \<and>
   extract_delta_events both_kinds = Inr [(''inventorydelta'', [(55555, 2)])] \<and>
   extract_snapshot_cards both_kinds = Inr [(12345, 2)]"
proof -
  have h: "parse_json_object both_kinds =
             Inr [DeltaEvent [(55555, 2)] ''inventorydelta'' both_kinds]"
    by code_simp
  have d: "is_dict both_kinds" by (simp add: both_kinds_def)
  have f: "extract_delta_events both_kinds = Inr [(''inventorydelta'', [(55555, 2)])]"
    by code_simp
  have c: "extract_snapshot_cards both_kinds = Inr [(12345, 2)]"
    by code_simp
  from delta_takes_precedence[OF h]
  have "(\<forall>e \<in> set [DeltaEvent [(55555, 2)] ''inventorydelta'' both_kinds]. is_delta e) \<or>
        (\<forall>e \<in> set [DeltaEvent [(55555, 2)] ''inventorydelta'' both_kinds]. \<not> is_delta e)"
    by blast
  then have i: "is_delta (DeltaEvent [(55555, 2)] ''inventorydelta'' both_kinds)" by simp
  from h i d f c show ?thesis by blast
qed

end
